theory Spec2Isabelle
  imports Main
begin

section \<open>Exceptions, external answers and the observable trace\<close>

text \<open>
  The program is one Python file, \<^verbatim>\<open>server.py\<close>, written against the trio library.
  Every raise of the source is a value of \<open>exn\<close>; a function that can raise returns
  \<open>exn + 'a\<close> with \<open>Inl\<close> for the exception.

  \<open>is_Exception e\<close> is Python's \<^verbatim>\<open>isinstance(e, Exception)\<close>: what the clause
  \<^verbatim>\<open>except Exception\<close> of \<^verbatim>\<open>keep_one_runner_running\<close> catches. \<^verbatim>\<open>SystemExit\<close>
  (raised by \<^verbatim>\<open>sys.exit\<close>) and \<^verbatim>\<open>trio.Cancelled\<close> derive from \<^verbatim>\<open>BaseException\<close> only.
  A nursery reports the exceptions of its children as a group; a group is an
  \<^verbatim>\<open>ExceptionGroup\<close> (an \<^verbatim>\<open>Exception\<close>) exactly when all of its members are
  \<^verbatim>\<open>Exception\<close>s, and a \<^verbatim>\<open>BaseExceptionGroup\<close> otherwise.
\<close>

datatype exn =
    CalledProcessError
  | OSError
  | UnboundLocalError
  | KeyError string
  | ValueError
  | TransportError
  | UnicodeDecodeError
  | SystemExit
  | Cancelled
  | ExceptionGroup "exn list"

fun is_Exception :: "exn \<Rightarrow> bool" where
  "is_Exception SystemExit = False"
| "is_Exception Cancelled = False"
| "is_Exception (ExceptionGroup es) = list_all is_Exception es"
| "is_Exception e = True"

text \<open>
  \<open>without_cancelled e\<close> is the second component of Python's
  \<^verbatim>\<open>e.split(trio.Cancelled)\<close>: what is left of an exception once every
  \<^verbatim>\<open>Cancelled\<close> in it has been taken out (\<open>None\<close> when nothing is left). A cancel
  scope that was cancelled applies it to the exception leaving its block.
\<close>

fun without_cancelled :: "exn \<Rightarrow> exn option" where
  "without_cancelled Cancelled = None"
| "without_cancelled (ExceptionGroup es) =
     (case concat (map (\<lambda>e. case without_cancelled e of None \<Rightarrow> [] | Some r \<Rightarrow> [r]) es) of
        [] \<Rightarrow> None
      | rs \<Rightarrow> Some (ExceptionGroup rs))"
| "without_cancelled e = Some e"

text \<open>
  The hypervisor, the remote host and the control plane are outside the program. Each
  awaited call takes its answer from the environment:
  \<^item> \<open>Exited rc out\<close>: the command ran and exited with return code \<open>rc\<close> and captured
    standard output \<open>out\<close>;
  \<^item> \<open>SpawnError\<close>: the command could not be started (\<^verbatim>\<open>OSError\<close>);
  \<^item> \<open>Interrupted\<close>: the shutdown signal arrived while the call was waiting, so the
    pool's root scope was cancelled and the call raises \<^verbatim>\<open>trio.Cancelled\<close>;
  \<^item> \<open>Stopped\<close>: the call does not end by itself. It waits until a cancel scope
    around it other than the root is cancelled, and then raises \<^verbatim>\<open>trio.Cancelled\<close>.
    For a call made by a subtask of a lifecycle that scope is the lifecycle's nursery,
    cancelled by the sibling subtask.
\<close>

datatype answer = Exited int string | SpawnError | Interrupted | Stopped

datatype http_answer =
  Json "(string \<times> string) list" | NotJson | HttpFailed | HttpInterrupted | HttpStopped

datatype sleep_answer = Slept | Woken

datatype delete_answer = Deleted int string | DeleteSpawnError | DeadlineExpired

datatype task = VM | Session

text \<open>
  What the program does that can be seen from outside, in the order it happens:
  \<^item> \<open>Proc command\<close>: a call of \<^verbatim>\<open>trio.run_process\<close> started \<open>command\<close>;
  \<^item> \<open>Post url headers\<close>: an HTTP POST;
  \<^item> \<open>Log data\<close>: a call of \<^verbatim>\<open>log\<close> with a string, \<open>LogExn e\<close> with an exception;
  \<^item> \<open>Sleep n\<close>: a call of \<^verbatim>\<open>trio.sleep(n)\<close> that began to wait;
  \<^item> \<open>ScopeCancel t\<close>: subtask \<open>t\<close> called \<^verbatim>\<open>cancel_scope.cancel()\<close> on the lifecycle's
    nursery; \<open>TaskExit t r\<close>: subtask \<open>t\<close> has exited, \<open>r\<close> says whether it returned
    or what it raised.
\<close>

datatype event =
    Proc "string list"
  | Post string "(string \<times> string) list"
  | Log string
  | LogExn exn
  | Sleep nat
  | ScopeCancel task
  | TaskExit task "exn + unit"

text \<open>
  The state threaded through the program: whether the root scope has been cancelled
  (the signal handler raised \<^verbatim>\<open>SystemExit\<close> in the pool's nursery, which cancels every
  slot), and everything the program did so far.
\<close>

record world =
  shutdown :: bool
  trace :: "event list"

definition emit :: "event \<Rightarrow> world \<Rightarrow> world" where
  "emit e w = w\<lparr>trace := trace w @ [e]\<rparr>"

text \<open>\<^verbatim>\<open>def log(data): print(data, flush=True)\<close>\<close>

definition log :: "string \<Rightarrow> world \<Rightarrow> world" where
  "log data w = emit (Log data) w"

record completed =
  returncode :: int
  stdout :: string

text \<open>
  \<^verbatim>\<open>trio.run_process(command, check=True, ...)\<close>, called outside any shield. A
  call that starts its command is listed in the trace when it starts it. With
  \<^verbatim>\<open>check\<close> left at its default a non-zero return code raises
  \<^verbatim>\<open>subprocess.CalledProcessError\<close>: the source relies on it in \<^verbatim>\<open>get_tart_ip\<close> (which
  catches that exception from a call without \<^verbatim>\<open>check\<close>) and passes \<^verbatim>\<open>check=False\<close>
  where it wants the return code instead. A call made when the root scope is already
  cancelled raises \<^verbatim>\<open>Cancelled\<close> before anything is started.
\<close>

definition run_process :: "bool \<Rightarrow> string list \<Rightarrow> answer \<Rightarrow> world \<Rightarrow> world \<times> (exn + completed)" where
  "run_process check command a w =
     (if shutdown w then (w, Inl Cancelled)
      else case a of
        Interrupted \<Rightarrow> (emit (Proc command) (w\<lparr>shutdown := True\<rparr>), Inl Cancelled)
      | Stopped \<Rightarrow> (emit (Proc command) w, Inl Cancelled)
      | SpawnError \<Rightarrow> (emit (Proc command) w, Inl OSError)
      | Exited rc out \<Rightarrow>
          (if check \<and> rc \<noteq> 0 then (emit (Proc command) w, Inl CalledProcessError)
           else (emit (Proc command) w, Inr \<lparr>returncode = rc, stdout = out\<rparr>)))"

section \<open>Strings\<close>

fun str_nat :: "nat \<Rightarrow> string" where
  "str_nat n =
     (if n < 10 then [char_of (48 + n)] else str_nat (n div 10) @ [char_of (48 + n mod 10)])"

definition str_int :: "int \<Rightarrow> string" where
  "str_int i = (if i < 0 then CHR ''-'' # str_nat (nat (- i)) else str_nat (nat i))"

text \<open>
  Text is a list of code points below 256. \<open>is_space\<close> is \<^verbatim>\<open>str.isspace\<close> on one such
  character; \<open>is_linebreak\<close> holds of the characters \<^verbatim>\<open>str.splitlines\<close> ends a line
  at (\<^verbatim>\<open>\n \r \v \f \x1c \x1d \x1e \x85\<close>).
\<close>

definition is_space :: "char \<Rightarrow> bool" where
  "is_space c =
     (let n = (of_char c :: nat)
      in (9 \<le> n \<and> n \<le> 13) \<or> (28 \<le> n \<and> n \<le> 32) \<or> n = 133 \<or> n = 160)"

definition is_linebreak :: "char \<Rightarrow> bool" where
  "is_linebreak c =
     (let n = (of_char c :: nat)
      in (10 \<le> n \<and> n \<le> 13) \<or> (28 \<le> n \<and> n \<le> 30) \<or> n = 133)"

text \<open>\<^verbatim>\<open>s.strip()\<close>\<close>

definition strip :: "string \<Rightarrow> string" where
  "strip s = rev (dropWhile is_space (rev (dropWhile is_space s)))"

text \<open>\<^verbatim>\<open>b.decode("ascii")\<close>: a byte above 127 raises \<^verbatim>\<open>UnicodeDecodeError\<close>.\<close>

definition decode_ascii :: "string \<Rightarrow> exn + string" where
  "decode_ascii b = (if list_all (\<lambda>c. (of_char c :: nat) < 128) b then Inr b else Inl UnicodeDecodeError)"

text \<open>\<^verbatim>\<open>os.path.join(a, b)\<close> for a relative \<open>b\<close>.\<close>

definition path_join :: "string \<Rightarrow> string \<Rightarrow> string" where
  "path_join a b = (if a = [] \<or> last a = CHR ''/'' then a @ b else a @ ''/'' @ b)"

text \<open>
  \<^verbatim>\<open>text.splitlines(True)\<close>: the lines of \<open>text\<close> with their line ends kept; \<^verbatim>\<open>\r\n\<close> is
  one line end.
\<close>

fun splitlines :: "string \<Rightarrow> string list" where
  "splitlines [] = []"
| "splitlines [c] = [[c]]"
| "splitlines (c # d # cs) =
     (if c = CHR 0x0D \<and> d = CHR 0x0A then [c, d] # splitlines cs
      else if is_linebreak c then [c] # splitlines (d # cs)
      else (case splitlines (d # cs) of
              [] \<Rightarrow> [[c]]
            | l # ls \<Rightarrow> (c # l) # ls))"

text \<open>
  \<^verbatim>\<open>textwrap.indent(text, prefix)\<close> with the default predicate: the prefix is added to
  every line that does not consist solely of whitespace.
  \<^verbatim>\<open>
  def indent(text, prefix, predicate=None):
      if predicate is None:
          def predicate(line):
              return line.strip()
      def prefixed_lines():
          for line in text.splitlines(True):
              yield (prefix + line if predicate(line) else line)
      return ''.join(prefixed_lines())
  \<close>
\<close>

definition indent :: "string \<Rightarrow> string \<Rightarrow> string" where
  "indent text prefix =
     concat (map (\<lambda>line. if strip line \<noteq> [] then prefix @ line else line) (splitlines text))"

section \<open>Configuration\<close>

text \<open>The fields of \<^verbatim>\<open>config.toml\<close> the program reads, and the module's \<^verbatim>\<open>BASE_DIR\<close>.\<close>

record config =
  base_dir :: string
  installation_id :: string
  org :: string
  base_image :: string
  cpus :: int
  memory :: int
  user :: string
  runner_base_name :: string
  labels :: string

section \<open>Provisioning\<close>

text \<open>
  \<^verbatim>\<open>provision_tart_vm\<close>. \<open>random\<close> is \<^verbatim>\<open>binascii.hexlify(os.urandom(4)).decode("ascii")\<close>.
  \<^verbatim>\<open>sys.exit(1)\<close> raises \<^verbatim>\<open>SystemExit\<close>.
\<close>

definition provision_tart_vm :: "config \<Rightarrow> string \<Rightarrow> answer \<Rightarrow> answer \<Rightarrow> world \<Rightarrow> world \<times> (exn + string)" where
  "provision_tart_vm cfg random a_clone a_set w =
     (let runner_name = runner_base_name cfg @ ''-'' @ random;
          w1 = log (''Provisioning: '' @ runner_name) w
      in case run_process True [''tart'', ''clone'', base_image cfg, runner_name] a_clone w1 of
           (w2, Inl e) \<Rightarrow> (w2, Inl e)
         | (w2, Inr result) \<Rightarrow>
             if returncode result \<noteq> 0 then (log ''Failed to clone tart image'' w2, Inl SystemExit)
             else
               (case run_process True
                       [''tart'', ''set'', runner_name, ''--cpu'', str_int (cpus cfg),
                        ''--memory'', str_int (memory cfg)] a_set w2 of
                  (w3, Inl e) \<Rightarrow> (w3, Inl e)
                | (w3, Inr result) \<Rightarrow>
                    if returncode result \<noteq> 0
                    then (log ''Failed to set limits on tart image'' w3, Inl SystemExit)
                    else (w3, Inr runner_name)))"

section \<open>The execution session\<close>

text \<open>
  \<^verbatim>\<open>get_tart_ip\<close>. \<open>ans k\<close> is the environment's answer to the call made when
  \<^verbatim>\<open>attempts\<close> is \<open>k\<close>. The loop leaves \<^verbatim>\<open>result\<close> unbound when it ends without a
  successful call; the \<^verbatim>\<open>return\<close> then raises \<^verbatim>\<open>UnboundLocalError\<close>.
\<close>

function get_tart_ip_loop ::
  "string \<Rightarrow> nat \<Rightarrow> nat \<Rightarrow> (nat \<Rightarrow> answer) \<Rightarrow> world \<Rightarrow> world \<times> (exn + completed option)" where
  "get_tart_ip_loop runner_name retries attempts ans w =
     (if attempts < retries then
        (case run_process True [''tart'', ''ip'', runner_name, ''--wait'', ''3''] (ans attempts) w of
           (w1, Inr result) \<Rightarrow> (w1, Inr (Some result))
         | (w1, Inl CalledProcessError) \<Rightarrow>
             get_tart_ip_loop runner_name retries (attempts + 1) ans w1
         | (w1, Inl e) \<Rightarrow> (w1, Inl e))
      else (w, Inr None))"
  by pat_completeness auto
termination
  by (relation "measure (\<lambda>(runner_name, retries, attempts, ans, w). retries - attempts)") auto

definition get_tart_ip :: "string \<Rightarrow> nat \<Rightarrow> (nat \<Rightarrow> answer) \<Rightarrow> world \<Rightarrow> world \<times> (exn + string)" where
  "get_tart_ip runner_name retries ans w =
     (case get_tart_ip_loop runner_name retries 0 ans w of
        (w1, Inl e) \<Rightarrow> (w1, Inl e)
      | (w1, Inr None) \<Rightarrow> (w1, Inl UnboundLocalError)
      | (w1, Inr (Some result)) \<Rightarrow>
          (case decode_ascii (stdout result) of
             Inl e \<Rightarrow> (w1, Inl e)
           | Inr s \<Rightarrow> (w1, Inr (strip s))))"

text \<open>\<^verbatim>\<open>scp_actions_runner\<close>\<close>

definition scp_actions_runner :: "config \<Rightarrow> string \<Rightarrow> answer \<Rightarrow> world \<Rightarrow> world \<times> (exn + unit)" where
  "scp_actions_runner cfg ip a w =
     (let w1 = log ''Copying files to VM'' w
      in case run_process True
                [''scp'', ''-i'', ''./id_rsa'', ''-o'', ''StrictHostKeyChecking=no'',
                 ''-o'', ''UserKnownHostsFile=/dev/null'',
                 path_join (base_dir cfg) ''actions-runner.tar.gz'',
                 path_join (path_join (base_dir cfg) ''files'') ''runner-launcher.sh'',
                 user cfg @ ''@'' @ ip @ '':~/''] a w1 of
           (w2, Inl e) \<Rightarrow> (w2, Inl e)
         | (w2, Inr result) \<Rightarrow> (log ''Copied files to VM'' w2, Inr ()))"

text \<open>
  \<^verbatim>\<open>client.post(url, headers=...)\<close> followed by \<^verbatim>\<open>res.json()\<close>. The JSON object is
  an association list from keys to the values as \<^verbatim>\<open>str\<close> renders them.
\<close>

definition client_post ::
  "string \<Rightarrow> (string \<times> string) list \<Rightarrow> http_answer \<Rightarrow> world \<Rightarrow> world \<times> (exn + (string \<times> string) list)" where
  "client_post url headers a w =
     (if shutdown w then (w, Inl Cancelled)
      else case a of
        HttpInterrupted \<Rightarrow> (emit (Post url headers) (w\<lparr>shutdown := True\<rparr>), Inl Cancelled)
      | HttpStopped \<Rightarrow> (emit (Post url headers) w, Inl Cancelled)
      | HttpFailed \<Rightarrow> (emit (Post url headers) w, Inl TransportError)
      | NotJson \<Rightarrow> (emit (Post url headers) w, Inl ValueError)
      | Json d \<Rightarrow> (emit (Post url headers) w, Inr d))"

text \<open>\<^verbatim>\<open>d[key]\<close>\<close>

definition subscript :: "(string \<times> string) list \<Rightarrow> string \<Rightarrow> exn + string" where
  "subscript d key = (case map_of d key of None \<Rightarrow> Inl (KeyError key) | Some v \<Rightarrow> Inr v)"

text \<open>
  \<^verbatim>\<open>get_registration_token\<close>. \<open>app_token\<close> is what \<^verbatim>\<open>generate_jwt\<close> returns (the
  signed assertion; the signing library is outside the program); \<open>a1\<close> and \<open>a2\<close> are
  the control plane's answers to the two requests.
\<close>

definition get_registration_token ::
  "config \<Rightarrow> string \<Rightarrow> http_answer \<Rightarrow> http_answer \<Rightarrow> world \<Rightarrow> world \<times> (exn + string)" where
  "get_registration_token cfg app_token a1 a2 w =
     (let w1 = log ''Requesting new runner registration-token to github ...'' w
      in case client_post
                (''https://api.github.com/app/installations/'' @ installation_id cfg @ ''/access_tokens'')
                [(''Accept'', ''application/vnd.github.v3+json''),
                 (''Authorization'', ''Bearer '' @ app_token)] a1 w1 of
           (w2, Inl e) \<Rightarrow> (w2, Inl e)
         | (w2, Inr response_data) \<Rightarrow>
             (case subscript response_data ''token'' of
                Inl e \<Rightarrow> (w2, Inl e)
              | Inr endpoint_token \<Rightarrow>
                  (case client_post
                          (''https://api.github.com/orgs/'' @ org cfg @ ''/actions/runners/registration-token'')
                          [(''Accept'', ''application/vnd.github.v3+json''),
                           (''Authorization'', ''Bearer '' @ endpoint_token)] a2 w2 of
                     (w3, Inl e) \<Rightarrow> (w3, Inl e)
                   | (w3, Inr response_data) \<Rightarrow>
                       (case subscript response_data ''token'' of
                          Inl e \<Rightarrow> (w3, Inl e)
                        | Inr token \<Rightarrow>
                            (case subscript response_data ''expires_at'' of
                               Inl e \<Rightarrow> (w3, Inl e)
                             | Inr expires_at \<Rightarrow>
                                 (log (''New registration token is '' @ token @ '' and expires at '' @ expires_at) w3,
                                  Inr token))))))"

text \<open>
  \<^verbatim>\<open>log_output\<close>. \<open>chunks\<close> are the pieces of the agent's output in the order the
  stream delivers them, each as the incremental UTF-8 decoder returns it; the loop ends
  when the stream closes. Every chunk is one call of \<^verbatim>\<open>log\<close>.
\<close>

fun log_output :: "string list \<Rightarrow> string \<Rightarrow> world \<Rightarrow> world" where
  "log_output [] runner_name w = w"
| "log_output (b # chunks) runner_name w =
     log_output chunks runner_name (log (indent b (runner_name @ '': '')) w)"

text \<open>
  What the environment does to one execution session: the answers to the address
  polls, to the copy, to the two token requests and to the \<^verbatim>\<open>ssh\<close> command, the
  signed assertion, and the chunks of output the agent's stream delivers before the
  \<^verbatim>\<open>ssh\<close> command ends or the wait for it is cancelled.
\<close>

record session_env =
  ip_answers :: "nat \<Rightarrow> answer"
  scp_answer :: answer
  app_token :: string
  token_answer1 :: http_answer
  token_answer2 :: http_answer
  ssh_answer :: answer
  output_chunks :: "string list"

text \<open>
  The \<^verbatim>\<open>try\<close> block of \<^verbatim>\<open>run_runner_then_cancel\<close>: the block under
  \<^verbatim>\<open>async with trio.open_nursery() as nursery\<close>. The \<^verbatim>\<open>ssh\<close> command is started with
  \<^verbatim>\<open>check=False\<close>, so its return code raises nothing. Once it runs, \<^verbatim>\<open>log_output\<close>
  forwards the agent's output until the command ends or the wait is cancelled. An
  exception that leaves the block leaves it as a group.
\<close>

definition run_runner :: "config \<Rightarrow> string \<Rightarrow> session_env \<Rightarrow> world \<Rightarrow> world \<times> (exn + unit)" where
  "run_runner cfg runner_name se w =
     (case
        (case get_tart_ip runner_name 4 (ip_answers se) w of
           (w1, Inl e) \<Rightarrow> (w1, Inl e)
         | (w1, Inr ip) \<Rightarrow>
             (case scp_actions_runner cfg ip (scp_answer se) w1 of
                (w2, Inl e) \<Rightarrow> (w2, Inl e)
              | (w2, Inr _) \<Rightarrow>
                  (case get_registration_token cfg (app_token se) (token_answer1 se) (token_answer2 se) w2 of
                     (w3, Inl e) \<Rightarrow> (w3, Inl e)
                   | (w3, Inr token) \<Rightarrow>
                       (let w4 = log ''Launching runner...'' w3;
                            started = (\<not> shutdown w4 \<and> ssh_answer se \<noteq> SpawnError)
                        in case run_process False
                                  [''ssh'', ''-i'', ''./id_rsa'', ''-o'', ''StrictHostKeyChecking=no'',
                                   ''-o'', ''UserKnownHostsFile=/dev/null'',
                                   user cfg @ ''@'' @ ip,
                                   ''~/runner-launcher.sh '' @ token @ '' '' @ runner_name @
                                   '' https://github.com/'' @ org cfg @ '' '' @ labels cfg]
                                  (ssh_answer se) w4 of
                             (w5, r) \<Rightarrow>
                               (let w6 = (if started
                                          then log_output (output_chunks se) runner_name w5
                                          else w5)
                                in case r of
                                     Inl e \<Rightarrow> (w6, Inl e)
                                   | Inr runner_process \<Rightarrow> (w6, Inr ()))))))
      of
        (w', Inl e) \<Rightarrow> (w', Inl (ExceptionGroup [e]))
      | (w', Inr u) \<Rightarrow> (w', Inr u))"

section \<open>The runner lifecycle\<close>

text \<open>
  The \<^verbatim>\<open>try\<close> block of \<^verbatim>\<open>run_vm_then_cancel\<close>: \<^verbatim>\<open>tart run\<close> is started at once;
  with \<^verbatim>\<open>check=False\<close> its return code raises nothing.
\<close>

definition run_vm :: "string \<Rightarrow> answer \<Rightarrow> world \<Rightarrow> world \<times> (exn + unit)" where
  "run_vm runner_name a w =
     (case run_process False [''tart'', ''run'', runner_name, ''--no-graphics''] a w of
        (w1, Inl e) \<Rightarrow> (w1, Inl e)
      | (w1, Inr result) \<Rightarrow> (w1, Inr ()))"

text \<open>
  The clause \<^verbatim>\<open>finally: cancel_scope.cancel()\<close> that both \<^verbatim>\<open>run_vm_then_cancel\<close> and
  \<^verbatim>\<open>run_runner_then_cancel\<close> end with, followed by the exit of the subtask with the
  result \<open>r\<close> of its \<^verbatim>\<open>try\<close> block.
\<close>

definition finally_cancel :: "task \<Rightarrow> exn + unit \<Rightarrow> world \<Rightarrow> world" where
  "finally_cancel t r w = emit (TaskExit t r) (emit (ScopeCancel t) w)"

text \<open>
  What a subtask raises when the cancellation of the nursery reaches the call it waits
  in: \<^verbatim>\<open>Cancelled\<close>, which the session raises through its own nursery block, hence as
  a group.
\<close>

fun cancellation :: "task \<Rightarrow> exn + unit" where
  "cancellation VM = Inl Cancelled"
| "cancellation Session = Inl (ExceptionGroup [Cancelled])"

text \<open>
  \<open>stopped w r\<close>: the \<^verbatim>\<open>try\<close> block that ended in the world \<open>w\<close> with \<open>r\<close> has not ended
  by itself: it raised \<^verbatim>\<open>Cancelled\<close> though the root scope is not cancelled, so it
  stands in a call that waits for the nursery's scope to be cancelled.
\<close>

definition stopped :: "world \<Rightarrow> exn + unit \<Rightarrow> bool" where
  "stopped w r = (\<not> shutdown w \<and> (r = Inl Cancelled \<or> r = Inl (ExceptionGroup [Cancelled])))"

text \<open>What the environment does to one lifecycle. \<open>vm_answer\<close> says how \<^verbatim>\<open>tart run\<close>
  ends if it ends before the session's \<^verbatim>\<open>try\<close> block does.\<close>

record lifecycle_env =
  random_hex :: string
  clone_answer :: answer
  set_answer :: answer
  vm_answer :: answer
  session :: session_env
  delete_answer :: delete_answer
  signal_in_cleanup :: bool

text \<open>
  Leaving the nursery block once both subtasks have exited. \<open>excs\<close> are the exceptions
  of the subtasks. A root cancellation that arrived while the nursery was open is raised
  in the waiting parent as well and passes through. Otherwise the nursery's own scope,
  cancelled by a subtask, takes every \<^verbatim>\<open>Cancelled\<close> out; what is left is raised as a
  group.
\<close>

definition nursery_exit :: "bool \<Rightarrow> bool \<Rightarrow> exn list \<Rightarrow> exn + unit" where
  "nursery_exit root_cancelled scope_cancelled excs =
     (if root_cancelled then Inl (ExceptionGroup (Cancelled # excs))
      else if excs = [] then Inr ()
      else if scope_cancelled then
        (case without_cancelled (ExceptionGroup excs) of None \<Rightarrow> Inr () | Some e \<Rightarrow> Inl e)
      else Inl (ExceptionGroup excs))"

definition raised :: "exn + unit \<Rightarrow> exn list" where
  "raised r = (case r of Inl e \<Rightarrow> [e] | Inr _ \<Rightarrow> [])"

text \<open>
  The nursery block of \<^verbatim>\<open>runner\<close>, with its two subtasks:
  \<^verbatim>\<open>
  async with trio.open_nursery() as nursery:
      nursery.start_soon(run_vm_then_cancel, runner_name, nursery.cancel_scope)
      nursery.start_soon(run_runner_then_cancel, config, runner_name, nursery.cancel_scope)
  \<close>
  The VM monitor starts \<^verbatim>\<open>tart run\<close> and waits for it; the session runs beside it.
  A subtask runs its \<^verbatim>\<open>finally\<close> clause when its \<^verbatim>\<open>try\<close> block ends, and the
  cancellation of the scope then reaches the call the sibling waits in, which raises
  \<^verbatim>\<open>Cancelled\<close>. So:
  \<^item> if \<^verbatim>\<open>tart run\<close> cannot be started, the VM monitor exits at once and the session
    is cancelled at its first call, before it starts anything;
  \<^item> if the session's block ends by itself (it returns, or raises for a reason other
    than a cancelled nursery), the session exits first and the VM monitor is cancelled
    in its wait for \<^verbatim>\<open>tart run\<close>;
  \<^item> if the session stands in a call that only a cancellation ends, \<^verbatim>\<open>tart run\<close>
    ends first if it ends at all: the VM monitor exits with its own result and the
    session is cancelled in that call. If \<^verbatim>\<open>tart run\<close> does not end by itself either,
    both subtasks wait and the lifecycle is in flight: \<open>None\<close>.
  The block is left when both subtasks have exited.
\<close>

definition nursery_block ::
  "config \<Rightarrow> string \<Rightarrow> lifecycle_env \<Rightarrow> world \<Rightarrow> world \<times> (exn + unit) option" where
  "nursery_block cfg runner_name env w =
     (case run_vm runner_name (vm_answer env) w of
        (wv, rv) \<Rightarrow>
          if rv = Inl OSError then
            (let w1 = finally_cancel VM rv wv;
                 w2 = finally_cancel Session (cancellation Session) w1
             in (w2, Some (nursery_exit (shutdown w2) True
                             (raised rv @ raised (cancellation Session)))))
          else
            (case run_runner cfg runner_name (session env) wv of
               (ws, rs) \<Rightarrow>
                 if \<not> stopped ws rs then
                   (let w1 = finally_cancel Session rs ws;
                        w2 = finally_cancel VM (cancellation VM) w1
                    in (w2, Some (nursery_exit (shutdown w2) True
                                    (raised (cancellation VM) @ raised rs))))
                 else if stopped wv rv then (ws, None)
                 else
                   (let w1 = finally_cancel VM rv ws;
                        w2 = finally_cancel Session rs w1
                    in (w2, Some (nursery_exit (shutdown w2) True (raised rv @ raised rs))))))"

text \<open>
  The \<^verbatim>\<open>finally\<close> clause of \<^verbatim>\<open>runner\<close>:
  \<^verbatim>\<open>
  with trio.CancelScope(deadline=trio.current_time() + 5, shield=True):
      await trio.run_process(["tart", "delete", runner_name])
  \<close>
  Inside the shield the root scope's cancellation is not visible. \<open>DeadlineExpired\<close>:
  the command is still running when the deadline passes; the call raises
  \<^verbatim>\<open>Cancelled\<close>, which the scope catches. \<open>signal\<close>: the shutdown signal arrives while
  the block runs.
\<close>

definition cleanup :: "string \<Rightarrow> delete_answer \<Rightarrow> bool \<Rightarrow> world \<Rightarrow> world \<times> (exn + unit)" where
  "cleanup runner_name d signal w =
     (let inside = w\<lparr>shutdown := False\<rparr>;
          command = [''tart'', ''delete'', runner_name]
      in case (case d of
                 Deleted rc out \<Rightarrow> run_process True command (Exited rc out) inside
               | DeleteSpawnError \<Rightarrow> run_process True command SpawnError inside
               | DeadlineExpired \<Rightarrow> (emit (Proc command) inside, Inl Cancelled)) of
           (w1, r) \<Rightarrow>
             (w1\<lparr>shutdown := shutdown w \<or> signal\<rparr>,
              case r of
                Inl e \<Rightarrow> if d = DeadlineExpired \<and> e = Cancelled then Inr () else Inl e
              | Inr result \<Rightarrow> Inr ()))"

text \<open>
  \<^verbatim>\<open>runner\<close>: provisioning, the nursery block, and the \<^verbatim>\<open>finally\<close> clause. An
  exception raised in the \<^verbatim>\<open>finally\<close> clause replaces the one in flight. \<open>None\<close>: the
  lifecycle is still in flight.
\<close>

definition runner :: "config \<Rightarrow> lifecycle_env \<Rightarrow> world \<Rightarrow> world \<times> (exn + unit) option" where
  "runner cfg env w =
     (case provision_tart_vm cfg (random_hex env) (clone_answer env) (set_answer env) w of
        (w1, Inl e) \<Rightarrow> (w1, Some (Inl e))
      | (w1, Inr runner_name) \<Rightarrow>
          (case nursery_block cfg runner_name env w1 of
             (w2, None) \<Rightarrow> (w2, None)
           | (w2, Some r) \<Rightarrow>
               (case cleanup runner_name (delete_answer env) (signal_in_cleanup env) w2 of
                  (w3, Inl e) \<Rightarrow> (w3, Some (Inl e))
                | (w3, Inr _) \<Rightarrow> (w3, Some r))))"

section \<open>The slot supervisor\<close>

text \<open>\<^verbatim>\<open>trio.sleep(seconds)\<close>; \<open>Woken\<close>: the shutdown signal arrives during the sleep.\<close>

definition sleep :: "nat \<Rightarrow> sleep_answer \<Rightarrow> world \<Rightarrow> world \<times> (exn + unit)" where
  "sleep seconds a w =
     (if shutdown w then (w, Inl Cancelled)
      else case a of
        Slept \<Rightarrow> (emit (Sleep seconds) w, Inr ())
      | Woken \<Rightarrow> (emit (Sleep seconds) (w\<lparr>shutdown := True\<rparr>), Inl Cancelled))"

text \<open>
  Where \<^verbatim>\<open>keep_one_runner_running\<close> stands after the part of the environment given to
  it: at the head of its loop with the counter \<^verbatim>\<open>retries\<close>, inside a lifecycle that has
  not ended, or left by an exception.
\<close>

datatype loop_state = AtLoopHead nat | InFlight | Raised exn

text \<open>
  One pass through the body of the \<^verbatim>\<open>while True\<close> loop of
  \<^verbatim>\<open>keep_one_runner_running\<close>, entered with the counter \<^verbatim>\<open>retries\<close>: a lifecycle,
  and after a failure the log lines and the sleep.
\<close>

definition loop_body ::
  "config \<Rightarrow> nat \<Rightarrow> lifecycle_env \<Rightarrow> sleep_answer \<Rightarrow> world \<Rightarrow> world \<times> loop_state" where
  "loop_body cfg retries env s w =
     (case runner cfg env w of
        (w1, None) \<Rightarrow> (w1, InFlight)
      | (w1, Some (Inr u)) \<Rightarrow> (w1, AtLoopHead 0)
      | (w1, Some (Inl e)) \<Rightarrow>
          if is_Exception e then
            (let w2 = log ''Exception propagated to top level, restarting runner.'' w1;
                 w3 = emit (LogExn e) w2;
                 retries' = retries + 1;
                 w4 = log (''Sleeping '' @ str_nat (2 ^ retries') @ '' seconds before retrying'') w3
             in case sleep (2 ^ retries') s w4 of
                  (w5, Inl e') \<Rightarrow> (w5, Raised e')
                | (w5, Inr u) \<Rightarrow> (w5, AtLoopHead retries'))
          else (w1, Raised e))"

text \<open>
  \<^verbatim>\<open>keep_one_runner_running\<close>. The loop never ends by itself; the list gives, for each
  pass, the environment of the lifecycle and of the sleep that may follow it.
\<close>

fun keep_one_runner_running ::
  "config \<Rightarrow> nat \<Rightarrow> (lifecycle_env \<times> sleep_answer) list \<Rightarrow> world \<Rightarrow> world \<times> loop_state" where
  "keep_one_runner_running cfg retries [] w = (w, AtLoopHead retries)"
| "keep_one_runner_running cfg retries (x # rest) w =
     (case loop_body cfg retries (fst x) (snd x) w of
        (w1, AtLoopHead r) \<Rightarrow> keep_one_runner_running cfg r rest w1
      | (w1, InFlight) \<Rightarrow> (w1, InFlight)
      | (w1, Raised e) \<Rightarrow> (w1, Raised e))"

section \<open>Reading the trace\<close>

text \<open>The delays of the sleeps, the strings given to \<^verbatim>\<open>log\<close>, and how often a command
  was run.\<close>

fun sleeps :: "event list \<Rightarrow> nat list" where
  "sleeps [] = []"
| "sleeps (Sleep n # es) = n # sleeps es"
| "sleeps (e # es) = sleeps es"

fun logged :: "event list \<Rightarrow> string list" where
  "logged [] = []"
| "logged (Log data # es) = data # logged es"
| "logged (e # es) = logged es"

definition runs_of :: "string list \<Rightarrow> event list \<Rightarrow> nat" where
  "runs_of command es = count_list es (Proc command)"

text \<open>An event that starts something outside the program: a command, a request, a sleep.\<close>

fun starts :: "event list \<Rightarrow> event list" where
  "starts [] = []"
| "starts (Proc c # es) = Proc c # starts es"
| "starts (Post u h # es) = Post u h # starts es"
| "starts (Sleep n # es) = Sleep n # starts es"
| "starts (e # es) = starts es"

text \<open>\<open>occurs t s\<close>: the string \<open>t\<close> stands in \<open>s\<close> in full.\<close>

fun occurs :: "string \<Rightarrow> string \<Rightarrow> bool" where
  "occurs t [] = (t = [])"
| "occurs t (c # s) = (take (length t) (c # s) = t \<or> occurs t s)"

text \<open>
  A lifecycle fails in the world \<open>w\<close> when \<^verbatim>\<open>runner\<close> raises what
  \<^verbatim>\<open>except Exception\<close> catches. \<open>failure_run\<close>: every pass of the list is such a
  failure and its sleep runs to its end.
\<close>

definition lifecycle_fails :: "config \<Rightarrow> lifecycle_env \<Rightarrow> world \<Rightarrow> bool" where
  "lifecycle_fails cfg env w =
     (case runner cfg env w of
        (w1, Some (Inl e)) \<Rightarrow> is_Exception e \<and> \<not> shutdown w1
      | _ \<Rightarrow> False)"

definition lifecycle_succeeds :: "config \<Rightarrow> lifecycle_env \<Rightarrow> world \<Rightarrow> bool" where
  "lifecycle_succeeds cfg env w =
     (case runner cfg env w of
        (w1, Some (Inr u)) \<Rightarrow> True
      | _ \<Rightarrow> False)"

fun failure_run :: "config \<Rightarrow> nat \<Rightarrow> (lifecycle_env \<times> sleep_answer) list \<Rightarrow> world \<Rightarrow> bool" where
  "failure_run cfg retries [] w = True"
| "failure_run cfg retries (x # rest) w =
     (lifecycle_fails cfg (fst x) w \<and> snd x = Slept \<and>
      failure_run cfg (retries + 1) rest (fst (loop_body cfg retries (fst x) (snd x) w)))"

text \<open>The world after the failure handler of \<^verbatim>\<open>keep_one_runner_running\<close> has logged
  the exception \<open>e\<close> and slept, entered with the counter \<open>retries\<close>.\<close>

definition after_failure :: "nat \<Rightarrow> exn \<Rightarrow> world \<Rightarrow> world" where
  "after_failure retries e w1 =
     emit (Sleep (2 ^ (retries + 1)))
       (log (''Sleeping '' @ str_nat (2 ^ (retries + 1)) @ '' seconds before retrying'')
         (emit (LogExn e) (log ''Exception propagated to top level, restarting runner.'' w1)))"

text \<open>
  \<open>adds P w w'\<close>: the world \<open>w'\<close> continues \<open>w\<close> with events that all satisfy \<open>P\<close>.
  \<open>body_event\<close> holds of what the subtasks and provisioning do themselves: commands
  other than the deletion of a VM, requests and log lines. \<open>lifecycle_event\<close> holds of
  everything but the supervisor's own sleep and its log of an exception.
\<close>

definition adds :: "(event \<Rightarrow> bool) \<Rightarrow> world \<Rightarrow> world \<Rightarrow> bool" where
  "adds P w w' = (\<exists>evs. trace w' = trace w @ evs \<and> list_all P evs)"

fun body_event :: "event \<Rightarrow> bool" where
  "body_event (Proc c) = (take 2 c \<noteq> [''tart'', ''delete''])"
| "body_event (Post u h) = True"
| "body_event (Log d) = True"
| "body_event e = False"

fun lifecycle_event :: "event \<Rightarrow> bool" where
  "lifecycle_event (Sleep n) = False"
| "lifecycle_event (LogExn e) = False"
| "lifecycle_event e = True"

text \<open>The sibling of a subtask.\<close>

fun other :: "task \<Rightarrow> task" where
  "other VM = Session"
| "other Session = VM"

section \<open>An environment to run the program in\<close>

text \<open>A configuration, a fresh world, and a lifecycle in which the address is resolved
  at the third poll, the agent prints three lines in two chunks and exits, and the VM,
  which would go on running, is stopped by the session's exit.\<close>

definition cfg0 :: config where
  "cfg0 = \<lparr>base_dir = ''/opt/cm'', installation_id = ''42'', org = ''acme'',
     base_image = ''base'', cpus = 4, memory = 8, user = ''admin'',
     runner_base_name = ''runner'', labels = []\<rparr>"

definition w0 :: world where
  "w0 = \<lparr>shutdown = False, trace = []\<rparr>"

definition se0 :: session_env where
  "se0 = \<lparr>ip_answers = (\<lambda>k. if k < 2 then Exited 1 [] else Exited 0 ''10.0.0.5''),
     scp_answer = Exited 0 [], app_token = ''JWT'',
     token_answer1 = Json [(''token'', ''EXCH'')],
     token_answer2 = Json [(''token'', ''REG''), (''expires_at'', ''2026'')],
     ssh_answer = Exited 0 [],
     output_chunks = [''a'' @ [CHR 0x0A] @ ''b'' @ [CHR 0x0A], ''c'']\<rparr>"

definition env0 :: lifecycle_env where
  "env0 = \<lparr>random_hex = ''deadbeef'', clone_answer = Exited 0 [], set_answer = Exited 0 [],
     vm_answer = Stopped, session = se0,
     delete_answer = Deleted 0 [], signal_in_cleanup = False\<rparr>"


section \<open>Basic facts\<close>

lemma shutdown_emit [simp]: "shutdown (emit e w) = shutdown w"
  by (simp add: emit_def)

lemma shutdown_log [simp]: "shutdown (log d w) = shutdown w"
  by (simp add: log_def)

lemma trace_emit [simp]: "trace (emit e w) = trace w @ [e]"
  by (simp add: emit_def)

lemma trace_log [simp]: "trace (log d w) = trace w @ [Log d]"
  by (simp add: log_def)

lemma sleeps_append [simp]: "sleeps (xs @ ys) = sleeps xs @ sleeps ys"
  by (induction xs rule: sleeps.induct) auto

lemma logged_append [simp]: "logged (xs @ ys) = logged xs @ logged ys"
  by (induction xs rule: logged.induct) auto

lemma starts_append [simp]: "starts (xs @ ys) = starts xs @ starts ys"
  by (induction xs rule: starts.induct) auto

lemma run_process_check_nonzero:
  "\<not> shutdown w \<Longrightarrow> rc \<noteq> 0 \<Longrightarrow>
   run_process True c (Exited rc out) w = (emit (Proc c) w, Inl CalledProcessError)"
  by (simp add: run_process_def)

lemma run_process_zero:
  "\<not> shutdown w \<Longrightarrow>
   run_process ch c (Exited 0 out) w = (emit (Proc c) w, Inr \<lparr>returncode = 0, stdout = out\<rparr>)"
  by (simp add: run_process_def)

text \<open>With \<^verbatim>\<open>check\<close> at its default, \<^verbatim>\<open>run_process\<close> returns only a zero return code:
  the tests \<^verbatim>\<open>result.returncode != 0\<close> of \<^verbatim>\<open>provision_tart_vm\<close> never succeed.\<close>

lemma run_process_check_returns_zero:
  "run_process True c a w = (w1, Inr result) \<Longrightarrow> returncode result = 0"
  by (auto simp: run_process_def split: if_splits answer.splits)

lemma provision_never_exits:
  "provision_tart_vm cfg random a_clone a_set w = (w1, Inl e) \<Longrightarrow> e \<noteq> SystemExit"
  by (auto simp: provision_tart_vm_def Let_def run_process_def split: if_splits answer.splits)

section \<open>The failure handler of the supervisor\<close>

lemma loop_body_failure:
  assumes "runner cfg env w = (w1, Some (Inl e))" "is_Exception e" "\<not> shutdown w1"
  shows "loop_body cfg retries env Slept w = (after_failure retries e w1, AtLoopHead (retries + 1))"
  using assms by (simp add: loop_body_def Let_def sleep_def after_failure_def)

lemma sleeps_after_failure:
  "sleeps (trace (after_failure retries e w1)) = sleeps (trace w1) @ [2 ^ (retries + 1)]"
  by (simp add: after_failure_def)

lemma shutdown_after_failure [simp]: "shutdown (after_failure retries e w1) = shutdown w1"
  by (simp add: after_failure_def)

section \<open>Provisioning failures\<close>

lemma provision_fails:
  assumes "\<not> shutdown w" "rc \<noteq> 0"
    "clone_answer env = Exited rc out \<or>
     (clone_answer env = Exited 0 out' \<and> set_answer env = Exited rc out)"
  shows "\<exists>w1. provision_tart_vm cfg (random_hex env) (clone_answer env) (set_answer env) w =
            (w1, Inl CalledProcessError) \<and> \<not> shutdown w1"
  using assms
  by (auto simp: provision_tart_vm_def Let_def run_process_check_nonzero run_process_zero)

text \<open>
  C2. When the clone or the configure command returns a non-zero code, \<^verbatim>\<open>runner\<close>
  raises \<^verbatim>\<open>CalledProcessError\<close> (the \<^verbatim>\<open>sys.exit(1)\<close> branches are never reached). That
  is an \<^verbatim>\<open>Exception\<close>: the supervisor catches it, adds one to its counter, sleeps
  \<open>2 ^ (retries + 1)\<close> and goes on with the next lifecycle. The failure ends the lifecycle
  attempt only.
\<close>

theorem provisioning_failure_is_counted_and_retried:
  assumes "\<not> shutdown w" "rc \<noteq> 0"
    "clone_answer env = Exited rc out \<or>
     (clone_answer env = Exited 0 out' \<and> set_answer env = Exited rc out)"
  shows "\<exists>w1 w2. runner cfg env w = (w1, Some (Inl CalledProcessError)) \<and>
     is_Exception CalledProcessError \<and>
     loop_body cfg retries env Slept w = (w2, AtLoopHead (retries + 1)) \<and>
     sleeps (trace w2) = sleeps (trace w1) @ [2 ^ (retries + 1)] \<and>
     keep_one_runner_running cfg retries ((env, Slept) # rest) w =
       keep_one_runner_running cfg (retries + 1) rest w2"
proof -
  from provision_fails[OF assms, of cfg] obtain w1 where
    p: "provision_tart_vm cfg (random_hex env) (clone_answer env) (set_answer env) w =
          (w1, Inl CalledProcessError)"
    and s: "\<not> shutdown w1" by blast
  have r: "runner cfg env w = (w1, Some (Inl CalledProcessError))"
    by (simp add: runner_def p)
  have l: "loop_body cfg retries env Slept w =
             (after_failure retries CalledProcessError w1, AtLoopHead (retries + 1))"
    by (rule loop_body_failure[OF r _ s]) simp
  show ?thesis
    using r l by (simp add: sleeps_after_failure)
qed

theorem provisioning_failure_is_counted_and_retried_witness:
  "\<exists>w1 w2. runner cfg0 (env0\<lparr>set_answer := Exited 1 []\<rparr>) w0 = (w1, Some (Inl CalledProcessError)) \<and>
     is_Exception CalledProcessError \<and>
     loop_body cfg0 0 (env0\<lparr>set_answer := Exited 1 []\<rparr>) Slept w0 = (w2, AtLoopHead (0 + 1)) \<and>
     sleeps (trace w2) = sleeps (trace w1) @ [2 ^ (0 + 1)] \<and>
     keep_one_runner_running cfg0 0 ((env0\<lparr>set_answer := Exited 1 []\<rparr>, Slept) # []) w0 =
       keep_one_runner_running cfg0 (0 + 1) [] w2"
  by (rule provisioning_failure_is_counted_and_retried[where rc = 1 and out = "[]" and out' = "[]"])
     (simp_all add: w0_def env0_def)

section \<open>What each function adds to the trace, and what a cancellation leaves\<close>

declare get_tart_ip_loop.simps [simp del]

lemma adds_refl [simp]: "adds P w w"
  by (simp add: adds_def)

lemma adds_trans: "adds P w w1 \<Longrightarrow> adds P w1 w2 \<Longrightarrow> adds P w w2"
  by (auto simp: adds_def)

lemma adds_mono: "adds P w w' \<Longrightarrow> (\<And>e. P e \<Longrightarrow> Q e) \<Longrightarrow> adds Q w w'"
  by (auto simp: adds_def list_all_iff)

lemma adds_emit: "P e \<Longrightarrow> adds P w w1 \<Longrightarrow> adds P w (emit e w1)"
  by (auto simp: adds_def)

lemma adds_log: "P (Log d) \<Longrightarrow> adds P w w1 \<Longrightarrow> adds P w (log d w1)"
  by (auto simp: adds_def)

lemma adds_shutdown_update [simp]: "adds P w (w1\<lparr>shutdown := b\<rparr>) = adds P w w1"
  by (simp add: adds_def)

lemma adds_from_shutdown_update [simp]: "adds P (w\<lparr>shutdown := b\<rparr>) w1 = adds P w w1"
  by (simp add: adds_def)

lemma adds_from_emit: "P e \<Longrightarrow> adds P (emit e w) w1 \<Longrightarrow> adds P w w1"
  by (auto simp: adds_def)

lemma adds_from_log: "P (Log d) \<Longrightarrow> adds P (log d w) w1 \<Longrightarrow> adds P w w1"
  by (auto simp: adds_def)

lemma run_process_adds:
  "run_process ch c a w = (w', r) \<Longrightarrow> P (Proc c) \<Longrightarrow> adds P w w'"
  by (auto simp: run_process_def adds_def split: if_splits answer.splits)

lemma run_process_shutdown_mono:
  "run_process ch c a w = (w', r) \<Longrightarrow> shutdown w \<Longrightarrow> shutdown w'"
  by (auto simp: run_process_def split: if_splits answer.splits)

lemma run_process_cancelled:
  "run_process ch c a w = (w', r) \<Longrightarrow> shutdown w' \<Longrightarrow> r = Inl Cancelled"
  by (auto simp: run_process_def split: if_splits answer.splits)

lemma provision_adds:
  assumes "provision_tart_vm cfg random a b w = (w', r)"
  shows "adds body_event w w'"
  using assms
  unfolding provision_tart_vm_def Let_def
  by (auto split: prod.splits sum.splits if_splits
      intro!: adds_log elim!: adds_trans[rotated] dest!: run_process_adds[where P = body_event])

lemma provision_cancelled:
  assumes "provision_tart_vm cfg random a b w = (w', r)" "shutdown w'"
  shows "r = Inl Cancelled"
  using assms
  unfolding provision_tart_vm_def Let_def
  by (auto split: prod.splits sum.splits if_splits dest: run_process_cancelled run_process_check_returns_zero)

lemma run_process_shutdown: "shutdown w \<Longrightarrow> run_process ch c a w = (w, Inl Cancelled)"
  by (simp add: run_process_def)

lemma provision_shutdown:
  "shutdown w \<Longrightarrow>
   provision_tart_vm cfg random a b w =
     (log (''Provisioning: '' @ runner_base_name cfg @ ''-'' @ random) w, Inl Cancelled)"
  by (simp add: provision_tart_vm_def Let_def run_process_shutdown)

lemma get_tart_ip_loop_adds:
  "get_tart_ip_loop n retries attempts ans w = (w', r) \<Longrightarrow> adds body_event w w'"
proof (induction n retries attempts ans w rule: get_tart_ip_loop.induct)
  case (1 n retries attempts ans w)
  show ?case
  proof (cases "attempts < retries")
    case False
    with "1.prems" show ?thesis by (simp add: get_tart_ip_loop.simps)
  next
    case True
    obtain w1 r1 where rp: "run_process True [''tart'', ''ip'', n, ''--wait'', ''3''] (ans attempts) w = (w1, r1)"
      by fastforce
    have a1: "adds body_event w w1"
      by (rule run_process_adds[OF rp]) simp
    show ?thesis
    proof (cases "r1 = Inl CalledProcessError")
      case True
      with \<open>attempts < retries\<close> rp "1.prems"
      have "get_tart_ip_loop n retries (attempts + 1) ans w1 = (w', r)"
        by (subst (asm) get_tart_ip_loop.simps) simp
      from "1.IH"[OF \<open>attempts < retries\<close> rp[symmetric] _ _ this] True
      have "adds body_event w1 w'" by simp
      with a1 show ?thesis by (rule adds_trans)
    next
      case False
      with \<open>attempts < retries\<close> rp "1.prems" have "w' = w1"
        by (subst (asm) get_tart_ip_loop.simps) (auto split: sum.splits exn.splits)
      with a1 show ?thesis by simp
    qed
  qed
qed
lemma get_tart_ip_loop_cancelled:
  "get_tart_ip_loop n retries attempts ans w = (w', r) \<Longrightarrow> shutdown w \<longrightarrow> attempts < retries \<Longrightarrow>
   shutdown w' \<Longrightarrow> r = Inl Cancelled"
proof (induction n retries attempts ans w rule: get_tart_ip_loop.induct)
  case (1 n retries attempts ans w)
  show ?case
  proof (cases "attempts < retries")
    case False
    with "1.prems" show ?thesis
      by (subst (asm) get_tart_ip_loop.simps) auto
  next
    case True
    obtain w1 r1 where rp: "run_process True [''tart'', ''ip'', n, ''--wait'', ''3''] (ans attempts) w = (w1, r1)"
      by fastforce
    show ?thesis
    proof (cases "r1 = Inl CalledProcessError")
      case c: True
      with \<open>attempts < retries\<close> rp "1.prems"
      have l: "get_tart_ip_loop n retries (attempts + 1) ans w1 = (w', r)"
        by (subst (asm) get_tart_ip_loop.simps) simp
      from run_process_cancelled[OF rp] c have "\<not> shutdown w1" by auto
      with "1.IH"[OF \<open>attempts < retries\<close> rp[symmetric] _ _ l _ "1.prems"(3)] c
      show ?thesis by simp
    next
      case False
      with \<open>attempts < retries\<close> rp "1.prems" have "w' = w1" "r = map_sum id Some r1"
        by (subst (asm) get_tart_ip_loop.simps; auto split: sum.splits exn.splits)+
      with run_process_cancelled[OF rp] "1.prems"(3) show ?thesis by simp
    qed
  qed
qed

lemma get_tart_ip_adds:
  "get_tart_ip n retries ans w = (w', r) \<Longrightarrow> adds body_event w w'"
  by (auto simp: get_tart_ip_def split: prod.splits sum.splits option.splits
      dest: get_tart_ip_loop_adds)

lemma get_tart_ip_cancelled:
  assumes "get_tart_ip n retries ans w = (w', r)" "0 < retries" "shutdown w'"
  shows "r = Inl Cancelled"
proof -
  obtain w1 r1 where l: "get_tart_ip_loop n retries 0 ans w = (w1, r1)"
    by fastforce
  with assms(1) have "w' = w1"
    by (auto simp: get_tart_ip_def split: sum.splits option.splits)
  with get_tart_ip_loop_cancelled[OF l] assms have "r1 = Inl Cancelled"
    by simp
  with l assms(1) show ?thesis
    by (simp add: get_tart_ip_def)
qed

lemma scp_adds:
  "scp_actions_runner cfg ip a w = (w', r) \<Longrightarrow> adds body_event w w'"
  unfolding scp_actions_runner_def Let_def
  by (auto split: prod.splits sum.splits
      intro!: adds_log elim!: adds_from_log[rotated] dest!: run_process_adds[where P = body_event])

lemma scp_cancelled:
  "scp_actions_runner cfg ip a w = (w', r) \<Longrightarrow> shutdown w' \<Longrightarrow> r = Inl Cancelled"
  unfolding scp_actions_runner_def Let_def
  by (auto split: prod.splits sum.splits dest: run_process_cancelled)

lemma client_post_adds:
  "client_post url h a w = (w', r) \<Longrightarrow> P (Post url h) \<Longrightarrow> adds P w w'"
  by (auto simp: client_post_def adds_def split: if_splits http_answer.splits)

lemma client_post_cancelled:
  "client_post url h a w = (w', r) \<Longrightarrow> shutdown w' \<Longrightarrow> r = Inl Cancelled"
  by (auto simp: client_post_def split: if_splits http_answer.splits)

lemma get_registration_token_adds:
  "get_registration_token cfg jwt a1 a2 w = (w', r) \<Longrightarrow> adds body_event w w'"
  unfolding get_registration_token_def Let_def
  by (auto split: prod.splits sum.splits
      intro!: adds_log elim!: adds_from_log[rotated] adds_trans[rotated]
      dest!: client_post_adds[where P = body_event])

lemma get_registration_token_cancelled:
  "get_registration_token cfg jwt a1 a2 w = (w', r) \<Longrightarrow> shutdown w' \<Longrightarrow> r = Inl Cancelled"
  unfolding get_registration_token_def Let_def
  by (auto split: prod.splits sum.splits dest: client_post_cancelled)

lemma log_output_trace:
  "trace (log_output chunks n w) = trace w @ map (\<lambda>b. Log (indent b (n @ '': ''))) chunks"
  by (induction chunks arbitrary: w) auto

lemma log_output_shutdown [simp]: "shutdown (log_output chunks n w) = shutdown w"
  by (induction chunks arbitrary: w) auto

lemma log_output_adds: "adds body_event w (log_output chunks n w)"
  by (auto simp: adds_def log_output_trace list_all_iff)
lemma adds_body_from_log: "adds body_event (log d w) w1 \<Longrightarrow> adds body_event w w1"
  by (rule adds_from_log) simp_all


lemma run_runner_adds:
  "run_runner cfg n se w = (w', r) \<Longrightarrow> adds body_event w w'"
  unfolding run_runner_def Let_def
  apply (auto split: prod.splits sum.splits if_splits
      dest!: get_tart_ip_adds scp_adds get_registration_token_adds
             run_process_adds[where P = body_event])
         apply (blast intro: adds_trans adds_body_from_log log_output_adds)+
  done

lemma run_runner_cancelled:
  "run_runner cfg n se w = (w', r) \<Longrightarrow> shutdown w' \<Longrightarrow> r = Inl (ExceptionGroup [Cancelled])"
  unfolding run_runner_def Let_def
  by (auto split: prod.splits sum.splits if_splits
      dest: get_tart_ip_cancelled scp_cancelled get_registration_token_cancelled
            run_process_cancelled)

lemma run_runner_group:
  "run_runner cfg n se w = (w', Inl e) \<Longrightarrow> \<exists>e'. e = ExceptionGroup [e']"
  unfolding run_runner_def Let_def
  by (auto split: prod.splits sum.splits if_splits)

lemma run_vm_adds: "run_vm n a w = (w', r) \<Longrightarrow> adds body_event w w'"
  unfolding run_vm_def
  by (auto split: prod.splits sum.splits dest!: run_process_adds[where P = body_event])

lemma run_vm_cancelled: "run_vm n a w = (w', r) \<Longrightarrow> shutdown w' \<Longrightarrow> r = Inl Cancelled"
  unfolding run_vm_def
  by (auto split: prod.splits sum.splits dest: run_process_cancelled)

lemma run_vm_results:
  "run_vm n a w = (w', r) \<Longrightarrow> r = Inr () \<or> r = Inl OSError \<or> r = Inl Cancelled"
  unfolding run_vm_def
  by (auto simp: run_process_def split: prod.splits sum.splits if_splits answer.splits)


section \<open>The nursery of the lifecycle\<close>

lemma trace_finally_cancel [simp]:
  "trace (finally_cancel t r w) = trace w @ [ScopeCancel t, TaskExit t r]"
  by (simp add: finally_cancel_def)

lemma shutdown_finally_cancel [simp]: "shutdown (finally_cancel t r w) = shutdown w"
  by (simp add: finally_cancel_def)

lemma nursery_block_cases:
  assumes "nursery_block cfg name env w = (w2, ro)"
  obtains
    (vm_fails) wv where "run_vm name (vm_answer env) w = (wv, Inl OSError)"
      "w2 = finally_cancel Session (cancellation Session) (finally_cancel VM (Inl OSError) wv)"
      "ro = Some (nursery_exit (shutdown w2) True [OSError, ExceptionGroup [Cancelled]])"
  | (session_first) wv rv ws rs where "run_vm name (vm_answer env) w = (wv, rv)" "rv \<noteq> Inl OSError"
      "run_runner cfg name (session env) wv = (ws, rs)" "\<not> stopped ws rs"
      "w2 = finally_cancel VM (cancellation VM) (finally_cancel Session rs ws)"
      "ro = Some (nursery_exit (shutdown w2) True (Cancelled # raised rs))"
  | (in_flight) wv rv ws rs where "run_vm name (vm_answer env) w = (wv, rv)"
      "run_runner cfg name (session env) wv = (ws, rs)" "stopped ws rs" "stopped wv rv"
      "w2 = ws" "ro = None"
  | (vm_first) wv rv ws where "run_vm name (vm_answer env) w = (wv, rv)" "rv \<noteq> Inl OSError"
      "run_runner cfg name (session env) wv = (ws, cancellation Session)"
      "stopped ws (cancellation Session)" "\<not> stopped wv rv"
      "w2 = finally_cancel Session (cancellation Session) (finally_cancel VM rv ws)"
      "ro = Some (nursery_exit (shutdown w2) True (raised rv @ [ExceptionGroup [Cancelled]]))"
proof -
  obtain wv rv where v: "run_vm name (vm_answer env) w = (wv, rv)"
    by fastforce
  show ?thesis
  proof (cases "rv = Inl OSError")
    case True
    with v assms show ?thesis
      by (intro vm_fails[of wv]) (auto simp: nursery_block_def Let_def raised_def)
  next
    case nf: False
    obtain ws rs where s: "run_runner cfg name (session env) wv = (ws, rs)"
      by fastforce
    show ?thesis
    proof (cases "stopped ws rs")
      case False
      with v nf s assms show ?thesis
        by (intro session_first[of wv rv ws rs]) (auto simp: nursery_block_def Let_def raised_def)
    next
      case st: True
      have rs: "rs = cancellation Session"
        using st run_runner_group[of cfg name "session env" wv ws] s
        by (auto simp: stopped_def)
      show ?thesis
      proof (cases "stopped wv rv")
        case True
        with v nf s st assms show ?thesis
          by (intro in_flight[of wv rv ws rs]) (auto simp: nursery_block_def Let_def)
      next
        case False
        with v nf s st rs assms show ?thesis
          by (intro vm_first[of wv rv ws]) (auto simp: nursery_block_def Let_def raised_def)
      qed
    qed
  qed
qed

lemma nursery_block_shape:
  assumes "nursery_block cfg name env w = (w2, Some r)"
  shows "\<exists>t rt pre. list_all body_event pre \<and>
     trace w2 = trace w @ pre @ [ScopeCancel t, TaskExit t rt,
                ScopeCancel (other t), TaskExit (other t) (cancellation (other t))]"
  using assms
proof (cases rule: nursery_block_cases)
  case (vm_fails wv)
  from run_vm_adds[OF vm_fails(1)] obtain evs where
    "trace wv = trace w @ evs" "list_all body_event evs"
    by (auto simp: adds_def)
  with vm_fails(2) show ?thesis
    by (intro exI[of _ VM] exI[of _ "Inl OSError"] exI[of _ evs]) simp
next
  case (session_first wv rv ws rs)
  from run_vm_adds[OF session_first(1)] run_runner_adds[OF session_first(3)]
  obtain evs where "trace ws = trace w @ evs" "list_all body_event evs"
    by (auto simp: adds_def)
  with session_first(5) show ?thesis
    by (intro exI[of _ Session] exI[of _ rs] exI[of _ evs]) simp
next
  case (in_flight wv rv ws rs)
  then show ?thesis by simp
next
  case (vm_first wv rv ws)
  from run_vm_adds[OF vm_first(1)] run_runner_adds[OF vm_first(3)]
  obtain evs where "trace ws = trace w @ evs" "list_all body_event evs"
    by (auto simp: adds_def)
  with vm_first(6) show ?thesis
    by (intro exI[of _ VM] exI[of _ rv] exI[of _ evs]) simp
qed


section \<open>Cleanup and the end of a lifecycle\<close>

lemma cleanup_eq:
  "cleanup name d signal w =
     (emit (Proc [''tart'', ''delete'', name]) (w\<lparr>shutdown := shutdown w \<or> signal\<rparr>),
      case d of
        Deleted rc out \<Rightarrow> if rc \<noteq> 0 then Inl CalledProcessError else Inr ()
      | DeleteSpawnError \<Rightarrow> Inl OSError
      | DeadlineExpired \<Rightarrow> Inr ())"
  by (cases d) (simp_all add: cleanup_def Let_def run_process_def emit_def)

lemma runner_provision_raises:
  "provision_tart_vm cfg (random_hex env) (clone_answer env) (set_answer env) w = (w1, Inl e) \<Longrightarrow>
   runner cfg env w = (w1, Some (Inl e))"
  by (simp add: runner_def)

lemma runner_ended:
  assumes "provision_tart_vm cfg (random_hex env) (clone_answer env) (set_answer env) w = (w1, Inr name)"
    and "runner cfg env w = (w', Some r)"
  shows "\<exists>w2 r2. nursery_block cfg name env w1 = (w2, Some r2) \<and>
     w' = fst (cleanup name (delete_answer env) (signal_in_cleanup env) w2) \<and>
     r = (case snd (cleanup name (delete_answer env) (signal_in_cleanup env) w2) of
            Inl e \<Rightarrow> Inl e | Inr u \<Rightarrow> r2)"
  using assms
  by (auto simp: runner_def split: prod.splits option.splits sum.splits)


section \<open>Deletion of the VM, and the order of exits, cancellation and cleanup\<close>

text \<open>
  C1. The claim fails on the code where the clone succeeds and the configure command
  does not: \<^verbatim>\<open>provision_tart_vm\<close> raises before \<^verbatim>\<open>runner\<close> enters its
  \<^verbatim>\<open>try ... finally\<close>, so the lifecycle ends with the VM cloned once and the delete
  command never run.
\<close>

theorem cloned_vm_is_not_deleted_when_configure_fails:
  "snd (runner cfg0 (env0\<lparr>set_answer := Exited 1 []\<rparr>) w0) = Some (Inl CalledProcessError) \<and>
   runs_of [''tart'', ''clone'', ''base'', ''runner-deadbeef'']
     (trace (fst (runner cfg0 (env0\<lparr>set_answer := Exited 1 []\<rparr>) w0))) = 1 \<and>
   runs_of [''tart'', ''delete'', ''runner-deadbeef'']
     (trace (fst (runner cfg0 (env0\<lparr>set_answer := Exited 1 []\<rparr>) w0))) = 0"
  by code_simp

lemma runs_of_delete_body:
  "list_all body_event evs \<Longrightarrow> take 2 c = [''tart'', ''delete''] \<Longrightarrow> runs_of c evs = 0"
  by (induction evs) (auto simp: runs_of_def)

lemma provision_env0:
  "provision_tart_vm cfg0 (random_hex env0) (clone_answer env0) (set_answer env0) w0 =
     (fst (provision_tart_vm cfg0 (random_hex env0) (clone_answer env0) (set_answer env0) w0),
      Inr ''runner-deadbeef'')"
  by code_simp

lemma runner_env0: "runner cfg0 env0 w0 = (fst (runner cfg0 env0 w0), Some (Inr ()))"
  by code_simp



text \<open>
  Once provisioning has returned the name of the VM, a lifecycle that ends has run the
  delete command for that VM exactly once, however it ended.
\<close>

theorem provisioned_vm_is_deleted_exactly_once:
  assumes "provision_tart_vm cfg (random_hex env) (clone_answer env) (set_answer env) w = (w1, Inr name)"
    and "runner cfg env w = (w', Some r)"
  shows "runs_of [''tart'', ''delete'', name] (trace w') =
         runs_of [''tart'', ''delete'', name] (trace w) + 1"
proof -
  from runner_ended[OF assms] obtain w2 r2 where
    nb: "nursery_block cfg name env w1 = (w2, Some r2)" and
    w': "w' = fst (cleanup name (delete_answer env) (signal_in_cleanup env) w2)"
    by blast
  from nursery_block_shape[OF nb] obtain t rt pre where
    s: "list_all body_event pre"
       "trace w2 = trace w1 @ pre @ [ScopeCancel t, TaskExit t rt,
                ScopeCancel (other t), TaskExit (other t) (cancellation (other t))]"
    by blast
  from provision_adds[OF assms(1)] obtain evs where
    p: "trace w1 = trace w @ evs" "list_all body_event evs"
    by (auto simp: adds_def)
  have z: "count_list evs (Proc [''tart'', ''delete'', name]) = 0"
    "count_list pre (Proc [''tart'', ''delete'', name]) = 0"
    using s(1) p(2) runs_of_delete_body[of _ "[''tart'', ''delete'', name]"]
    by (simp_all add: runs_of_def)
  have "runs_of [''tart'', ''delete'', name] (trace w2) = runs_of [''tart'', ''delete'', name] (trace w)"
    unfolding runs_of_def s(2) p(1) using z by simp
  then show ?thesis
    unfolding w' cleanup_eq by (simp add: runs_of_def)
qed

theorem provisioned_vm_is_deleted_exactly_once_witness:
  "runs_of [''tart'', ''delete'', ''runner-deadbeef''] (trace (fst (runner cfg0 env0 w0))) =
   runs_of [''tart'', ''delete'', ''runner-deadbeef''] (trace w0) + 1"
  by (rule provisioned_vm_is_deleted_exactly_once[OF provision_env0 runner_env0])



section \<open>The sleeps of the supervisor\<close>

lemma sleeps_lifecycle_events: "list_all lifecycle_event evs \<Longrightarrow> sleeps evs = []"
  by (induction evs rule: sleeps.induct) auto

lemma adds_sleeps: "adds lifecycle_event w w' \<Longrightarrow> sleeps (trace w') = sleeps (trace w)"
  by (auto simp: adds_def sleeps_lifecycle_events)

lemma body_event_lifecycle: "body_event e \<Longrightarrow> lifecycle_event e"
  by (cases e) auto

lemma adds_finally_cancel:
  "adds lifecycle_event w w1 \<Longrightarrow> adds lifecycle_event w (finally_cancel t r w1)"
  by (auto simp: adds_def)

lemma nursery_block_adds:
  assumes "nursery_block cfg name env w = (w', r)"
  shows "adds lifecycle_event w w'"
  using assms
proof (cases rule: nursery_block_cases)
  case (vm_fails wv)
  have "adds lifecycle_event w wv"
    by (rule adds_mono[OF run_vm_adds[OF vm_fails(1)]]) (rule body_event_lifecycle)
  then show ?thesis
    unfolding vm_fails(2) by (intro adds_finally_cancel)
next
  case (session_first wv rv ws rs)
  have "adds body_event w ws"
    using run_vm_adds[OF session_first(1)] run_runner_adds[OF session_first(3)]
    by (rule adds_trans)
  then have "adds lifecycle_event w ws"
    by (rule adds_mono) (rule body_event_lifecycle)
  then show ?thesis
    unfolding session_first(5) by (intro adds_finally_cancel)
next
  case (in_flight wv rv ws rs)
  have "adds body_event w ws"
    using run_vm_adds[OF in_flight(1)] run_runner_adds[OF in_flight(2)]
    by (rule adds_trans)
  then show ?thesis
    unfolding in_flight(5) by (rule adds_mono) (rule body_event_lifecycle)
next
  case (vm_first wv rv ws)
  have "adds body_event w ws"
    using run_vm_adds[OF vm_first(1)] run_runner_adds[OF vm_first(3)]
    by (rule adds_trans)
  then have "adds lifecycle_event w ws"
    by (rule adds_mono) (rule body_event_lifecycle)
  then show ?thesis
    unfolding vm_first(6) by (intro adds_finally_cancel)
qed

lemma cleanup_adds: "cleanup name d signal w = (w', r) \<Longrightarrow> adds lifecycle_event w w'"
  by (auto simp: cleanup_eq adds_def)

lemma runner_adds:
  assumes "runner cfg env w = (w', r)"
  shows "adds lifecycle_event w w'"
proof -
  obtain w1 r1 where p: "provision_tart_vm cfg (random_hex env) (clone_answer env) (set_answer env) w = (w1, r1)"
    by fastforce
  have a1: "adds lifecycle_event w w1"
    by (rule adds_mono[OF provision_adds[OF p]]) (rule body_event_lifecycle)
  show ?thesis
  proof (cases r1)
    case (Inl e)
    with p assms a1 show ?thesis by (simp add: runner_def)
  next
    case (Inr name)
    obtain w2 r2 where nb: "nursery_block cfg name env w1 = (w2, r2)"
      by fastforce
    have a2: "adds lifecycle_event w w2"
      using a1 nursery_block_adds[OF nb] by (rule adds_trans)
    show ?thesis
    proof (cases r2)
      case None
      with p Inr nb assms a2 show ?thesis by (simp add: runner_def)
    next
      case (Some r3)
      obtain w3 r4 where c: "cleanup name (delete_answer env) (signal_in_cleanup env) w2 = (w3, r4)"
        by fastforce
      have "w' = w3"
        using p Inr nb Some c assms by (auto simp: runner_def split: sum.splits)
      with a2 cleanup_adds[OF c] show ?thesis
        by (auto intro: adds_trans)
    qed
  qed
qed


lemma runner_sleeps: "sleeps (trace (fst (runner cfg env w))) = sleeps (trace w)"
  by (rule adds_sleeps) (rule runner_adds[OF prod.collapse[symmetric]])

lemma failure_run_delays:
  "failure_run cfg retries xs w \<Longrightarrow>
   \<exists>w'. keep_one_runner_running cfg retries xs w = (w', AtLoopHead (retries + length xs)) \<and>
        sleeps (trace w') =
          sleeps (trace w) @ map (\<lambda>k. 2 ^ (retries + k + 1)) [0..<length xs]"
proof (induction xs arbitrary: retries w)
  case Nil
  then show ?case by simp
next
  case (Cons x xs)
  obtain env s where x: "x = (env, s)" by (cases x)
  from Cons.prems x have f: "lifecycle_fails cfg env w" and s: "s = Slept"
    and rest: "failure_run cfg (retries + 1) xs (fst (loop_body cfg retries env s w))"
    by auto
  from f obtain w1 e where r: "runner cfg env w = (w1, Some (Inl e))" "is_Exception e" "\<not> shutdown w1"
    by (auto simp: lifecycle_fails_def split: prod.splits option.splits sum.splits)
  have lb: "loop_body cfg retries env Slept w = (after_failure retries e w1, AtLoopHead (retries + 1))"
    by (rule loop_body_failure[OF r])
  from Cons.IH[OF rest[unfolded s lb fst_conv]] obtain w' where
    k: "keep_one_runner_running cfg (retries + 1) xs (after_failure retries e w1) =
          (w', AtLoopHead (retries + 1 + length xs))"
    and sl: "sleeps (trace w') = sleeps (trace (after_failure retries e w1)) @
          map (\<lambda>k. 2 ^ (retries + 1 + k + 1)) [0..<length xs]"
    by blast
  have w1: "sleeps (trace w1) = sleeps (trace w)"
    using runner_sleeps[of cfg env w] r(1) by simp
  have "map (\<lambda>k. 2 ^ (retries + k + 1)) [0..<length (x # xs)] =
        (2 ^ (retries + 1) :: nat) # map (\<lambda>k. 2 ^ (retries + 1 + k + 1)) [0..<length xs]"
    by (simp add: upt_rec[of 0] map_Suc_upt[symmetric] del: upt_Suc)
  with k sl w1 show ?case
    by (simp add: x s lb sleeps_after_failure)
qed


lemma provision_failure_pass:
  assumes "\<not> shutdown w" "rc \<noteq> 0"
    "clone_answer env = Exited rc out \<or>
     (clone_answer env = Exited 0 out' \<and> set_answer env = Exited rc out)"
  shows "lifecycle_fails cfg env w \<and> \<not> shutdown (fst (loop_body cfg retries env Slept w))"
proof -
  from provision_fails[OF assms, of cfg] obtain w1 where
    p: "provision_tart_vm cfg (random_hex env) (clone_answer env) (set_answer env) w =
          (w1, Inl CalledProcessError)"
    and s: "\<not> shutdown w1" by blast
  have r: "runner cfg env w = (w1, Some (Inl CalledProcessError))"
    by (simp add: runner_def p)
  have l: "loop_body cfg retries env Slept w =
             (after_failure retries CalledProcessError w1, AtLoopHead (retries + 1))"
    by (rule loop_body_failure[OF r _ s]) simp
  show ?thesis
    using r s l by (simp add: lifecycle_fails_def)
qed

lemma failure_run_provision_Cons:
  assumes "\<not> shutdown w" "rc \<noteq> 0"
    "clone_answer env = Exited rc out \<or>
     (clone_answer env = Exited 0 out' \<and> set_answer env = Exited rc out)"
    and "\<And>w1. \<not> shutdown w1 \<Longrightarrow> failure_run cfg (retries + 1) xs w1"
  shows "failure_run cfg retries ((env, Slept) # xs) w"
  using provision_failure_pass[OF assms(1-3), of cfg retries] assms(4) by simp

lemma loop_body_success:
  assumes "lifecycle_succeeds cfg env w"
  shows "loop_body cfg retries env s w = (fst (runner cfg env w), AtLoopHead 0)"
proof (cases "runner cfg env w")
  case (Pair w1 r)
  with assms obtain u where "r = Some (Inr u)"
    by (cases r; cases "the r") (simp_all add: lifecycle_succeeds_def)
  with Pair show ?thesis
    by (simp add: loop_body_def)
qed

text \<open>
  C6. A run of consecutive failures that starts with the counter at \<open>retries\<close> sleeps
  \<open>2 ^ (retries + 1)\<close>, \<open>2 ^ (retries + 2)\<close>, ... and leaves the counter at \<open>retries\<close>
  plus the number of failures; the loop starts with the counter at 0, so its first run
  sleeps \<open>2 ^ 1\<close>, \<open>2 ^ 2\<close>, \<open>2 ^ 3\<close>, ... A success, whatever the counter was, is
  followed by no sleep and sets the counter to 0: the failures after it sleep \<open>2 ^ 1\<close>,
  \<open>2 ^ 2\<close>, ... again.
\<close>

theorem backoff_delays_are_powers_of_two_and_reset_on_success:
  "(failure_run cfg retries xs w \<longrightarrow>
      (\<exists>w'. keep_one_runner_running cfg retries xs w = (w', AtLoopHead (retries + length xs)) \<and>
            sleeps (trace w') =
              sleeps (trace w) @ map (\<lambda>k. 2 ^ (retries + k + 1)) [0..<length xs])) \<and>
   (lifecycle_succeeds cfg env w \<and> failure_run cfg 0 ys (fst (runner cfg env w)) \<longrightarrow>
      (\<exists>w'. keep_one_runner_running cfg n ((env, s) # ys) w = (w', AtLoopHead (length ys)) \<and>
            sleeps (trace w') = sleeps (trace w) @ map (\<lambda>k. 2 ^ (k + 1)) [0..<length ys]))"
proof (intro conjI impI)
  assume "failure_run cfg retries xs w"
  then show "\<exists>w'. keep_one_runner_running cfg retries xs w = (w', AtLoopHead (retries + length xs)) \<and>
            sleeps (trace w') =
              sleeps (trace w) @ map (\<lambda>k. 2 ^ (retries + k + 1)) [0..<length xs]"
    by (rule failure_run_delays)
next
  assume a: "lifecycle_succeeds cfg env w \<and> failure_run cfg 0 ys (fst (runner cfg env w))"
  from failure_run_delays[of cfg 0 ys "fst (runner cfg env w)"] a obtain w' where
    k: "keep_one_runner_running cfg 0 ys (fst (runner cfg env w)) = (w', AtLoopHead (length ys))"
    and sl: "sleeps (trace w') = sleeps (trace (fst (runner cfg env w))) @
              map (\<lambda>k. 2 ^ (k + 1)) [0..<length ys]"
    by auto
  from a have lb: "loop_body cfg n env s w = (fst (runner cfg env w), AtLoopHead 0)"
    by (simp add: loop_body_success)
  show "\<exists>w'. keep_one_runner_running cfg n ((env, s) # ys) w = (w', AtLoopHead (length ys)) \<and>
            sleeps (trace w') = sleeps (trace w) @ map (\<lambda>k. 2 ^ (k + 1)) [0..<length ys]"
    using k sl lb by (simp add: runner_sleeps)
qed

theorem backoff_delays_are_powers_of_two_and_reset_on_success_witness:
  "failure_run cfg0 0 [(env0\<lparr>clone_answer := Exited 1 []\<rparr>, Slept),
                       (env0\<lparr>set_answer := Exited 1 []\<rparr>, Slept),
                       (env0\<lparr>clone_answer := Exited 2 []\<rparr>, Slept)] w0 \<and>
   (\<exists>w'. keep_one_runner_running cfg0 0
            [(env0\<lparr>clone_answer := Exited 1 []\<rparr>, Slept),
             (env0\<lparr>set_answer := Exited 1 []\<rparr>, Slept),
             (env0\<lparr>clone_answer := Exited 2 []\<rparr>, Slept)] w0 = (w', AtLoopHead 3) \<and>
          sleeps (trace w') = [2, 4, 8]) \<and>
   lifecycle_succeeds cfg0 env0 w0 \<and>
   failure_run cfg0 0 [(env0\<lparr>clone_answer := Exited 1 []\<rparr>, Slept),
                       (env0\<lparr>set_answer := Exited 1 []\<rparr>, Slept)] (fst (runner cfg0 env0 w0)) \<and>
   (\<exists>w'. keep_one_runner_running cfg0 5
            ((env0, Slept) #
             [(env0\<lparr>clone_answer := Exited 1 []\<rparr>, Slept),
              (env0\<lparr>set_answer := Exited 1 []\<rparr>, Slept)]) w0 = (w', AtLoopHead 2) \<and>
          sleeps (trace w') = sleeps (trace w0) @ [2, 4])"
proof -
  let ?xs = "[(env0\<lparr>clone_answer := Exited 1 []\<rparr>, Slept),
              (env0\<lparr>set_answer := Exited 1 []\<rparr>, Slept),
              (env0\<lparr>clone_answer := Exited 2 []\<rparr>, Slept)]"
  let ?ys = "[(env0\<lparr>clone_answer := Exited 1 []\<rparr>, Slept),
              (env0\<lparr>set_answer := Exited 1 []\<rparr>, Slept)]"
  have c: "clone_answer env0 = Exited 0 []"
    by (simp add: env0_def)
  have p3: "failure_run cfg0 r [(env0\<lparr>clone_answer := Exited 2 []\<rparr>, Slept)] w" if "\<not> shutdown w" for r w
    by (rule failure_run_provision_Cons[where rc = 2 and out = "[]" and out' = "[]"])
       (use that in \<open>simp_all del: failure_run.simps(2)\<close>)
  have p2: "failure_run cfg0 r [(env0\<lparr>set_answer := Exited 1 []\<rparr>, Slept),
                                (env0\<lparr>clone_answer := Exited 2 []\<rparr>, Slept)] w" if "\<not> shutdown w" for r w
    by (rule failure_run_provision_Cons[where rc = 1 and out = "[]" and out' = "[]"])
       (use that in \<open>simp_all add: c p3 del: failure_run.simps(2)\<close>)
  have q2: "failure_run cfg0 r [(env0\<lparr>set_answer := Exited 1 []\<rparr>, Slept)] w" if "\<not> shutdown w" for r w
    by (rule failure_run_provision_Cons[where rc = 1 and out = "[]" and out' = "[]"])
       (use that in \<open>simp_all add: c del: failure_run.simps(2)\<close>)
  have f1: "failure_run cfg0 0 ?xs w0"
    by (rule failure_run_provision_Cons[where rc = 1 and out = "[]" and out' = "[]"])
       (simp_all add: w0_def p2 del: failure_run.simps(2))
  have s: "lifecycle_succeeds cfg0 env0 w0"
    by (subst lifecycle_succeeds_def, subst runner_env0) simp
  have n: "\<not> shutdown (fst (runner cfg0 env0 w0))"
    by code_simp
  have f2: "failure_run cfg0 0 ?ys (fst (runner cfg0 env0 w0))"
    by (rule failure_run_provision_Cons[where rc = 1 and out = "[]" and out' = "[]"])
       (simp_all add: n q2 del: failure_run.simps(2))
  have t0: "sleeps (trace w0) = []"
    by (simp add: w0_def)
  have m3: "map (\<lambda>k. 2 ^ (0 + k + 1)) [0..<length ?xs] = [2, 4, 8 :: nat]"
    by (simp add: upt_rec)
  have m2: "map (\<lambda>k. 2 ^ (k + 1)) [0..<length ?ys] = [2, 4 :: nat]"
    by (simp add: upt_rec)
  note th = backoff_delays_are_powers_of_two_and_reset_on_success
         [where cfg = cfg0 and retries = 0 and xs = ?xs and w = w0 and env = env0 and ys = ?ys
            and n = 5 and s = Slept]
  from th[THEN conjunct1, rule_format, OF f1] obtain w' where
    "keep_one_runner_running cfg0 0 ?xs w0 = (w', AtLoopHead (0 + length ?xs))"
    "sleeps (trace w') = sleeps (trace w0) @ map (\<lambda>k. 2 ^ (0 + k + 1)) [0..<length ?xs]"
    by blast
  then have "keep_one_runner_running cfg0 0 ?xs w0 = (w', AtLoopHead 3)"
    "sleeps (trace w') = [2, 4, 8]"
    unfolding m3 t0 by (simp_all del: keep_one_runner_running.simps)
  then have A: "\<exists>w'. keep_one_runner_running cfg0 0 ?xs w0 = (w', AtLoopHead 3) \<and>
                    sleeps (trace w') = [2, 4, 8]"
    by blast
  from th[THEN conjunct2, rule_format, OF conjI[OF s f2]] obtain w'' where
    "keep_one_runner_running cfg0 5 ((env0, Slept) # ?ys) w0 = (w'', AtLoopHead (length ?ys))"
    "sleeps (trace w'') = sleeps (trace w0) @ map (\<lambda>k. 2 ^ (k + 1)) [0..<length ?ys]"
    by blast
  then have "keep_one_runner_running cfg0 5 ((env0, Slept) # ?ys) w0 = (w'', AtLoopHead 2)"
    "sleeps (trace w'') = sleeps (trace w0) @ [2, 4]"
    unfolding m2 by (simp_all del: keep_one_runner_running.simps)
  then have B: "\<exists>w'. keep_one_runner_running cfg0 5 ((env0, Slept) # ?ys) w0 = (w', AtLoopHead 2) \<and>
                    sleeps (trace w') = sleeps (trace w0) @ [2, 4]"
    by blast
  from f1 A s f2 B show ?thesis
    by (intro conjI)
qed

end
